theory Spec2Isabelle
  imports Complex_Main
begin

section \<open>Data model of the Poseidon Merkle tree\<close>

text \<open>
  The embedding follows the class \<open>PoseidonMerkleTree\<close> of the timestamped tree module
  (the one with \<open>getProofFromStoredData\<close>), and the \<open>verifyProof\<close> of the older module.

  Conventions.
  \<^item> The external library supplies \<open>buildPoseidon\<close>. Every function that hashes takes a
    parameter \<open>P\<close> standing for \<open>xs \<mapsto> F.toString(poseidon(xs.map(F.e)))\<close>.
  \<^item> A hash is a decimal string in the source (\<open>F.toString\<close>), read back with
    \<open>BigInt(...)\<close>. It is represented by the integer that the decimal string denotes.
  \<^item> An identifier is a JavaScript string; \<open>Buffer.from(uid, 'utf8')\<close> turns it into
    bytes. An identifier is represented by that byte sequence, one \<open>char\<close> per byte.
  \<^item> \<open>null\<close> and \<open>undefined\<close> are \<open>None\<close>; a thrown exception is \<open>Inl\<close>.
\<close>

datatype error = TypeError

datatype node =
  Node (node_hash: int) (node_uid: "string option") (node_balance: "int option")
       (node_left: "node option") (node_right: "node option")

record tree =
  leaves :: "(string \<times> int) list"
  layers :: "node list list"
  timestamp :: "int option"
  finalRoot :: "int option"

record proofElement =
  pe_hash :: int
  position :: string

record proofObject =
  p_uid :: string
  p_balance :: "int option"
  p_leafHash :: int
  p_proof :: "proofElement list"
  p_merkleRoot :: "int option"
  p_timestamp :: "int option"
  p_finalRoot :: "int option"

record treeJSON =
  j_merkleRoot :: "int option"
  j_timestamp :: "int option"
  j_finalRoot :: "int option"
  j_leaves :: "(string \<times> int) list"
  j_layers :: "node list list"
  j_hashFunction :: string

record verdict =
  merklePathValid :: bool
  finalRootValid :: bool
  overallValid :: bool

text \<open>
  The value handed to \<open>verifyProof\<close> as its parameter \<open>proof\<close>. The function both iterates
  over it (\<open>for ... of proof\<close>) and reads the properties \<open>merkleRoot\<close>, \<open>timestamp\<close> and
  \<open>finalRoot\<close> of it, so the model records what a JavaScript value offers to each use:
  the elements it yields when it is iterable, and the properties that are defined on it.
\<close>

record proofArg =
  a_elements :: "proofElement list option"
  a_merkleRoot :: "int option"
  a_timestamp :: "int option"
  a_finalRoot :: "int option"

text \<open>A plain object as returned by \<open>getProofFromStoredData\<close>: not iterable.\<close>

definition ofObject :: "proofObject \<Rightarrow> proofArg" where
  "ofObject p = \<lparr>a_elements = None, a_merkleRoot = p_merkleRoot p,
     a_timestamp = p_timestamp p, a_finalRoot = p_finalRoot p\<rparr>"

text \<open>An array of path elements: iterable, and none of the three properties is defined.\<close>

definition ofArray :: "proofElement list \<Rightarrow> proofArg" where
  "ofArray es = \<lparr>a_elements = Some es, a_merkleRoot = None,
     a_timestamp = None, a_finalRoot = None\<rparr>"

section \<open>Hashing\<close>

text \<open>The loop \<open>num = (num << 8n) + BigInt(bytes[i])\<close> over the bytes of a string.\<close>

definition packBytes :: "string \<Rightarrow> int" where
  "packBytes bytes = foldl (\<lambda>num b. push_bit 8 num + of_char b) 0 bytes"

definition uidToFieldElement :: "string \<Rightarrow> int" where
  "uidToFieldElement uid = packBytes uid"

datatype hinput = Str string | Big int

definition hash :: "(int list \<Rightarrow> int) \<Rightarrow> hinput list \<Rightarrow> int" where
  "hash P inputs =
     P (map (\<lambda>input. case input of Str s \<Rightarrow> packBytes s | Big n \<Rightarrow> n) inputs)"

definition hashLeaf :: "(int list \<Rightarrow> int) \<Rightarrow> string \<Rightarrow> int \<Rightarrow> int" where
  "hashLeaf P uid balance = (let uidNum = packBytes uid in hash P [Big uidNum, Big balance])"

section \<open>Building the tree\<close>

definition PoseidonMerkleTree :: "(string \<times> int) list \<Rightarrow> tree" where
  "PoseidonMerkleTree lvs = \<lparr>leaves = lvs, layers = [], timestamp = None, finalRoot = None\<rparr>"

definition leafNode :: "(int list \<Rightarrow> int) \<Rightarrow> string \<times> int \<Rightarrow> node" where
  "leafNode P e = Node (hashLeaf P (fst e) (snd e)) (Some (fst e)) (Some (snd e)) None None"

definition combine :: "(int list \<Rightarrow> int) \<Rightarrow> node \<Rightarrow> node \<Rightarrow> node" where
  "combine P l r =
     Node (hash P [Big (node_hash l), Big (node_hash r)]) None None (Some l) (Some r)"

text \<open>
  The inner \<open>for (i = 0; i < currentLayer.length; i += 2)\<close>: \<open>right\<close> is
  \<open>currentLayer[i + 1] || left\<close>, and a node object is never falsy, so \<open>left\<close> is taken
  exactly when \<open>i + 1\<close> is out of range.
\<close>

fun pairLayer :: "(int list \<Rightarrow> int) \<Rightarrow> node list \<Rightarrow> node list" where
  "pairLayer P [] = []"
| "pairLayer P [l] = [combine P l l]"
| "pairLayer P (l # r # rest) = combine P l r # pairLayer P rest"

text \<open>The outer \<open>while (currentLayer.length > 1)\<close>; returns the layers it pushes.\<close>

function buildLayers :: "(int list \<Rightarrow> int) \<Rightarrow> node list \<Rightarrow> node list list" where
  "buildLayers P currentLayer =
     (if length currentLayer > 1
      then (let newLayer = pairLayer P currentLayer in newLayer # buildLayers P newLayer)
      else [])"
  by pat_completeness auto
termination
proof (relation "measure (\<lambda>(P, l). length l)")
  show "wf (measure (\<lambda>(P, l). length l))" by simp
next
  fix P :: "int list \<Rightarrow> int" and currentLayer x
  assume big: "1 < length currentLayer" and x: "x = pairLayer P currentLayer"
  have "length (pairLayer P ys) = (length ys + 1) div 2" for ys
    by (induction P ys rule: pairLayer.induct) simp_all
  with big x show "((P, x), (P, currentLayer)) \<in> measure (\<lambda>(P, l). length l)"
    by simp
qed

declare buildLayers.simps [simp del]

definition buildTree :: "(int list \<Rightarrow> int) \<Rightarrow> tree \<Rightarrow> tree" where
  "buildTree P t =
     (let currentLayer = map (leafNode P) (leaves t)
      in t\<lparr>layers := layers t @ [currentLayer] @ buildLayers P currentLayer\<rparr>)"

text \<open>
  \<open>getRoot\<close>: \<open>null\<close> without layers; otherwise \<open>layers[last][0].hash\<close>, which throws a
  TypeError when the last layer is empty (\<open>undefined.hash\<close>).
\<close>

definition getRoot :: "tree \<Rightarrow> error + int option" where
  "getRoot t =
     (if length (layers t) = 0 then Inr None
      else (case last (layers t) of
              [] \<Rightarrow> Inl TypeError
            | n # _ \<Rightarrow> Inr (Some (node_hash n))))"

text \<open>
  \<open>computeFinalRoot\<close> returns the final root (or \<open>null\<close>) and the updated object.
  \<open>!this.timestamp\<close> holds for \<open>null\<close> and for the number 0.
\<close>

definition computeFinalRoot :: "(int list \<Rightarrow> int) \<Rightarrow> tree \<Rightarrow> error + (int option \<times> tree)" where
  "computeFinalRoot P t =
     (case getRoot t of
        Inl e \<Rightarrow> Inl e
      | Inr merkleRoot \<Rightarrow>
          (case (merkleRoot, timestamp t) of
             (Some r, Some ts) \<Rightarrow>
               (if ts = 0 then Inr (None, t)
                else (let fr = hash P [Big r, Big ts]
                      in Inr (Some fr, t\<lparr>finalRoot := Some fr\<rparr>)))
           | _ \<Rightarrow> Inr (None, t)))"

text \<open>\<open>init\<close>, with the value of \<open>Date.now()\<close> as the parameter \<open>now\<close>.\<close>

definition init :: "(int list \<Rightarrow> int) \<Rightarrow> int \<Rightarrow> tree \<Rightarrow> error + tree" where
  "init P now t =
     (let t1 = t\<lparr>timestamp := Some now\<rparr>;
          t2 = buildTree P t1
      in (case computeFinalRoot P t2 of
            Inl e \<Rightarrow> Inl e
          | Inr (_, t3) \<Rightarrow> Inr t3))"

section \<open>Snapshots\<close>

definition exportNode :: "node \<Rightarrow> node" where
  "exportNode n = Node (node_hash n) (node_uid n) (node_balance n) None None"

definition exportToJSON :: "tree \<Rightarrow> error + treeJSON" where
  "exportToJSON t =
     (case getRoot t of
        Inl e \<Rightarrow> Inl e
      | Inr r \<Rightarrow>
          Inr \<lparr>j_merkleRoot = r, j_timestamp = timestamp t, j_finalRoot = finalRoot t,
               j_leaves = leaves t, j_layers = map (map exportNode) (layers t),
               j_hashFunction = ''poseidon''\<rparr>)"

definition initFromJSON :: "tree \<Rightarrow> treeJSON \<Rightarrow> tree" where
  "initFromJSON t jsonData =
     t\<lparr>leaves := j_leaves jsonData, layers := j_layers jsonData,
       timestamp := j_timestamp jsonData, finalRoot := j_finalRoot jsonData\<rparr>"

section \<open>Proof extraction\<close>

text \<open>\<open>Array.prototype.findIndex\<close>; \<open>None\<close> is the result -1.\<close>

fun findIndex :: "('a \<Rightarrow> bool) \<Rightarrow> 'a list \<Rightarrow> nat option" where
  "findIndex p [] = None"
| "findIndex p (x # xs) = (if p x then Some 0 else map_option Suc (findIndex p xs))"

text \<open>
  The loop \<open>for (layerIndex = 0; layerIndex < this.layers.length - 1; layerIndex++)\<close>,
  started at any \<open>layerIndex\<close>, with the node index and the path collected so far.
  For an odd \<open>nodeIndex\<close> the subtraction \<open>nodeIndex - 1\<close> stays within the naturals.
\<close>

function proofLoop ::
  "node list list \<Rightarrow> nat \<Rightarrow> nat \<Rightarrow> proofElement list \<Rightarrow> proofElement list" where
  "proofLoop lys layerIndex nodeIndex proof =
     (if layerIndex < length lys - 1
      then (let currentLayer = lys ! layerIndex;
                isLeftNode = (nodeIndex mod 2 = 0);
                siblingIndex = (if isLeftNode then nodeIndex + 1 else nodeIndex - 1);
                proof' = (if siblingIndex < length currentLayer
                          then proof @ [\<lparr>pe_hash = node_hash (currentLayer ! siblingIndex),
                                         position = (if isLeftNode then ''right'' else ''left'')\<rparr>]
                          else proof)
            in proofLoop lys (layerIndex + 1) (nodeIndex div 2) proof')
      else proof)"
  by pat_completeness auto
termination
  by (relation "measure (\<lambda>(lys, li, ni, pr). length lys - 1 - li)") auto

declare proofLoop.simps [simp del]

text \<open>
  \<open>getProofFromStoredData\<close>: \<open>this.layers[0]\<close> is \<open>undefined\<close> without layers, and calling
  \<open>findIndex\<close> on it throws; an absent identifier gives \<open>null\<close>.
\<close>

definition getProofFromStoredData :: "tree \<Rightarrow> string \<Rightarrow> error + proofObject option" where
  "getProofFromStoredData t uid =
     (case layers t of
        [] \<Rightarrow> Inl TypeError
      | leafLayer # _ \<Rightarrow>
          (case findIndex (\<lambda>node. node_uid node = Some uid) leafLayer of
             None \<Rightarrow> Inr None
           | Some nodeIndex \<Rightarrow>
               (let proof = proofLoop (layers t) 0 nodeIndex [];
                    currentNode = leafLayer ! nodeIndex
                in (case getRoot t of
                      Inl e \<Rightarrow> Inl e
                    | Inr r \<Rightarrow>
                        Inr (Some \<lparr>p_uid = uid, p_balance = node_balance currentNode,
                                   p_leafHash = node_hash currentNode, p_proof = proof,
                                   p_merkleRoot = r, p_timestamp = timestamp t,
                                   p_finalRoot = finalRoot t\<rparr>)))))"

section \<open>Verification\<close>

text \<open>One step of the \<open>for ... of\<close> loop of \<open>verifyProof\<close>.\<close>

definition verifyStep :: "(int list \<Rightarrow> int) \<Rightarrow> int \<Rightarrow> proofElement \<Rightarrow> int" where
  "verifyStep P computedHash proofElement =
     (if position proofElement = ''left''
      then hash P [Big (pe_hash proofElement), Big computedHash]
      else hash P [Big computedHash, Big (pe_hash proofElement)])"

text \<open>
  \<open>verifyProof(uid, balance, proof, root)\<close> of the timestamped module. Iterating a value
  that is not iterable throws a TypeError; so does \<open>BigInt(undefined)\<close> and
  \<open>BigInt(null)\<close>. The parameter \<open>root\<close> (here \<open>root'\<close>) is never read.
\<close>

definition verifyProof ::
  "(int list \<Rightarrow> int) \<Rightarrow> string \<Rightarrow> int \<Rightarrow> proofArg \<Rightarrow> int option \<Rightarrow> error + verdict" where
  "verifyProof P uid balance proof root' =
     (case a_elements proof of
        None \<Rightarrow> Inl TypeError
      | Some elems \<Rightarrow>
          (let computedHash = foldl (verifyStep P) (hashLeaf P uid balance) elems;
               mpv = (Some computedHash = a_merkleRoot proof)
           in (case a_merkleRoot proof of
                 None \<Rightarrow> Inl TypeError
               | Some mr \<Rightarrow>
                   (case a_timestamp proof of
                      None \<Rightarrow> Inl TypeError
                    | Some ts \<Rightarrow>
                        (let computedFinalRoot = hash P [Big mr, Big ts];
                             frv = (Some computedFinalRoot = a_finalRoot proof)
                         in Inr \<lparr>merklePathValid = mpv, finalRootValid = frv,
                                 overallValid = (mpv \<and> frv)\<rparr>)))))"

text \<open>
  \<open>verifyMerkleProof(uid, balance, proofData)\<close> passes \<open>proofData.proof\<close> (the array) and
  \<open>proofData.root\<close>, a property that the proof object does not have.
\<close>

definition verifyMerkleProof ::
  "(int list \<Rightarrow> int) \<Rightarrow> string \<Rightarrow> int \<Rightarrow> proofObject \<Rightarrow> error + verdict" where
  "verifyMerkleProof P uid balance proofData =
     verifyProof P uid balance (ofArray (p_proof proofData)) None"

text \<open>
  \<open>verifyProof(uid, balance, proof, root)\<close> of the older module: \<open>proof\<close> is the array and
  the result is \<open>computedHash === root\<close> (the parameter is \<open>root'\<close> here).
\<close>

definition verifyProof_v1 ::
  "(int list \<Rightarrow> int) \<Rightarrow> string \<Rightarrow> int \<Rightarrow> proofElement list \<Rightarrow> int option \<Rightarrow> bool" where
  "verifyProof_v1 P uid balance proof root' =
     (let computedHash = foldl (verifyStep P) (hashLeaf P uid balance) proof
      in Some computedHash = root')"

text \<open>A concrete stand-in for the hash, used where a statement is evaluated.\<close>

definition sampleHash :: "int list \<Rightarrow> int" where
  "sampleHash xs = foldl (\<lambda>a x. (31 * a + x) mod 1000003) 7 xs"

definition sampleEntries :: "(string \<times> int) list" where
  "sampleEntries = [(''UID_1'', 1000), (''UID_2'', 2500), (''UID_3'', 750)]"

text \<open>
  The path element of one layer in the words of the specification: the sibling of the
  node at \<open>idx\<close> is its neighbour, \<open>idx + 1\<close> on the right for an even \<open>idx\<close> and \<open>idx - 1\<close> on
  the left for an odd one, and nothing is emitted when that index is out of range.
\<close>

definition spec_pathElement :: "node list \<Rightarrow> nat \<Rightarrow> proofElement list" where
  "spec_pathElement layer idx =
     (if even idx
      then (if idx + 1 < length layer
            then [\<lparr>pe_hash = node_hash (layer ! (idx + 1)), position = ''right''\<rparr>]
            else [])
      else (if idx - 1 < length layer
            then [\<lparr>pe_hash = node_hash (layer ! (idx - 1)), position = ''left''\<rparr>]
            else []))"

definition dupEntries :: "(string \<times> int) list" where
  "dupEntries = [(''B'', 20), (''A'', 10), (''A'', 30)]"

text \<open>
  Identifiers whose first byte is not the NUL byte (the empty identifier included).
\<close>

definition noLeadingNul :: "string \<Rightarrow> bool" where
  "noLeadingNul s = (case s of [] \<Rightarrow> True | c # _ \<Rightarrow> c \<noteq> CHR 0x00)"

section \<open>The identifier encoding\<close>

lemma packBytes_Nil: "packBytes [] = 0"
  by (simp add: packBytes_def)

lemma packBytes_snoc: "packBytes (xs @ [c]) = 256 * packBytes xs + of_char c"
  by (simp add: packBytes_def push_bit_eq_mult)

lemma of_char_int_bounds: "0 \<le> (of_char c :: int) \<and> (of_char c :: int) < 256"
proof -
  have "(of_char c :: int) = int (of_char c)" by (simp add: of_char_def)
  moreover have "(of_char c :: nat) < 256" by simp
  ultimately show ?thesis by simp
qed

lemma of_char_int_pos: "c \<noteq> CHR 0x00 \<Longrightarrow> 0 < (of_char c :: int)"
proof -
  assume "c \<noteq> CHR 0x00"
  then have "(of_char c :: int) \<noteq> of_char (CHR 0x00)"
    by (simp only: of_char_eq_iff not_False_eq_True)
  then have "(of_char c :: int) \<noteq> 0" by simp
  with of_char_int_bounds[of c] show ?thesis by linarith
qed

lemma noLeadingNul_butlast: "noLeadingNul (xs @ [x]) \<Longrightarrow> noLeadingNul xs"
  by (cases xs) (simp_all add: noLeadingNul_def)

lemma packBytes_pos: "xs \<noteq> [] \<Longrightarrow> noLeadingNul xs \<Longrightarrow> 0 < packBytes xs"
proof (induction xs rule: rev_induct)
  case Nil
  then show ?case by simp
next
  case (snoc x xs)
  show ?case
  proof (cases xs)
    case Nil
    with snoc.prems have "x \<noteq> CHR 0x00" by (simp add: noLeadingNul_def)
    then have "0 < (of_char x :: int)" by (rule of_char_int_pos)
    with Nil show ?thesis by (simp add: packBytes_def)
  next
    case (Cons a list)
    from snoc.prems have "noLeadingNul xs" by (auto dest: noLeadingNul_butlast)
    with snoc.IH Cons have "0 < packBytes xs" by simp
    with of_char_int_bounds[of x] show ?thesis by (simp add: packBytes_snoc)
  qed
qed

text \<open>
  Two byte strings without a leading NUL byte are base-256 numerals without a leading
  zero digit: equal values force equal last digits and equal prefixes.
\<close>

lemma packBytes_inj_aux:
  "noLeadingNul xs \<Longrightarrow> noLeadingNul ys \<Longrightarrow> packBytes xs = packBytes ys \<Longrightarrow> xs = ys"
proof (induction xs arbitrary: ys rule: rev_induct)
  case Nil
  show ?case
  proof (rule ccontr)
    assume "[] \<noteq> ys"
    then have "0 < packBytes ys" using Nil.prems(2) by (simp add: packBytes_pos)
    with Nil.prems(3) show False by (simp add: packBytes_Nil)
  qed
next
  case (snoc x xs)
  have pos: "0 < packBytes (xs @ [x])" using snoc.prems(1) by (simp add: packBytes_pos)
  have "ys \<noteq> []"
  proof
    assume "ys = []"
    with snoc.prems(3) pos show False by (simp add: packBytes_Nil)
  qed
  then obtain zs y where ys: "ys = zs @ [y]" by (metis rev_exhaust)
  from snoc.prems(3) ys
  have eq: "256 * packBytes xs + of_char x = 256 * packBytes zs + (of_char y :: int)"
    by (simp add: packBytes_snoc)
  then have "(256 * packBytes xs + of_char x) mod 256
      = (256 * packBytes zs + (of_char y :: int)) mod 256"
    by (rule arg_cong)
  then have cc: "(of_char x :: int) = of_char y" by simp
  then have c: "x = y" by (simp only: of_char_eq_iff)
  from eq cc have p: "packBytes xs = packBytes zs" by simp
  have "noLeadingNul xs" using snoc.prems(1) by (rule noLeadingNul_butlast)
  moreover have "noLeadingNul zs" using snoc.prems(2) ys by (auto dest: noLeadingNul_butlast)
  ultimately have "xs = zs" using p by (rule snoc.IH)
  with c ys show ?case by simp
qed

text \<open>
  C9, as stated: any two distinct identifier strings are packed to distinct integers.
  This fails: a leading NUL byte (the character U+0000, one byte 0x00 in UTF-8) adds
  nothing to the packed value, so the two-byte identifier "\<open>\0\<close>1" and the identifier
  "1" are both packed to 49.
\<close>

theorem uid_encoding_collision:
  "[CHR 0x00, CHR ''1''] \<noteq> ''1''
   \<and> uidToFieldElement [CHR 0x00, CHR ''1''] = uidToFieldElement ''1''"
  by (simp add: uidToFieldElement_def packBytes_def)

text \<open>
  C9, amended: any two distinct identifier strings neither of which starts with a NUL
  byte are packed to distinct integers by \<open>uidToFieldElement\<close>, and \<open>hashLeaf\<close> feeds that
  same integer to the hash.
\<close>

theorem uid_encoding_injective_without_leading_nul:
  "noLeadingNul a \<Longrightarrow> noLeadingNul b \<Longrightarrow> a \<noteq> b \<Longrightarrow>
     uidToFieldElement a \<noteq> uidToFieldElement b
     \<and> (\<forall>P x y. hashLeaf P a x = hash P [Big (uidToFieldElement a), Big x]
                \<and> hashLeaf P b y = hash P [Big (uidToFieldElement b), Big y])"
  using packBytes_inj_aux [of a b] by (auto simp add: uidToFieldElement_def hashLeaf_def)

theorem uid_encoding_injective_witness:
  "noLeadingNul ''UID_1'' \<and> noLeadingNul ''UID_2'' \<and> ''UID_1'' \<noteq> ''UID_2''
   \<and> uidToFieldElement ''UID_1'' \<noteq> uidToFieldElement ''UID_2''"
  using uid_encoding_injective_without_leading_nul [of "''UID_1''" "''UID_2''"]
  by (simp add: noLeadingNul_def)

section \<open>Shape of the layers\<close>

lemma length_pairLayer: "length (pairLayer P xs) = (length xs + 1) div 2"
  by (induction P xs rule: pairLayer.induct) simp_all

lemma pairLayer_nth:
  "j < length (pairLayer P xs) \<Longrightarrow>
     2 * j < length xs \<and>
     pairLayer P xs ! j =
       combine P (xs ! (2 * j)) (if 2 * j + 1 < length xs then xs ! (2 * j + 1) else xs ! (2 * j))"
proof (induction P xs arbitrary: j rule: pairLayer.induct)
  case (1 P)
  then show ?case by simp
next
  case (2 P l)
  then show ?case by simp
next
  case (3 P l r rest)
  show ?case
  proof (cases j)
    case 0
    then show ?thesis by simp
  next
    case (Suc k)
    with "3.prems" have "k < length (pairLayer P rest)" by simp
    from "3.IH"[OF this] Suc show ?thesis by simp
  qed
qed

lemma buildLayers_short: "length cur \<le> 1 \<Longrightarrow> buildLayers P cur = []"
  by (subst buildLayers.simps) simp

lemma buildLayers_long:
  "1 < length cur \<Longrightarrow> buildLayers P cur = pairLayer P cur # buildLayers P (pairLayer P cur)"
  by (subst buildLayers.simps) (simp add: Let_def)

lemma buildLayers_step:
  "Suc i < length (cur # buildLayers P cur) \<Longrightarrow>
     (cur # buildLayers P cur) ! Suc i = pairLayer P ((cur # buildLayers P cur) ! i)"
proof (induction P cur arbitrary: i rule: buildLayers.induct)
  case (1 P cur)
  show ?case
  proof (cases "1 < length cur")
    case False
    with "1.prems" show ?thesis by (simp add: buildLayers_short)
  next
    case True
    note long = buildLayers_long[OF True, of P]
    show ?thesis
    proof (cases i)
      case 0
      then show ?thesis by (simp add: long)
    next
      case (Suc k)
      with "1.prems" have "Suc k < length (pairLayer P cur # buildLayers P (pairLayer P cur))"
        by (simp add: long)
      from "1.IH"[OF True refl this] Suc show ?thesis by (simp add: long)
    qed
  qed
qed

lemma buildLayers_last:
  "cur \<noteq> [] \<Longrightarrow> length (last (cur # buildLayers P cur)) = 1"
proof (induction P cur rule: buildLayers.induct)
  case (1 P cur)
  show ?case
  proof (cases "1 < length cur")
    case False
    with "1.prems" have "length cur = 1" by (cases cur) simp_all
    then show ?thesis by (simp add: buildLayers_short)
  next
    case True
    then have "0 < length (pairLayer P cur)" by (simp add: length_pairLayer)
    then have "pairLayer P cur \<noteq> []" by simp
    from "1.IH"[OF True refl this] show ?thesis by (simp add: buildLayers_long[OF True])
  qed
qed

lemma layers_buildTree:
  "layers (buildTree P (PoseidonMerkleTree entries))
     = map (leafNode P) entries # buildLayers P (map (leafNode P) entries)"
  by (simp add: buildTree_def PoseidonMerkleTree_def Let_def)


lemma sampleLayers:
  "layers (buildTree P (PoseidonMerkleTree [e0, e1, e2])) =
     [ [leafNode P e0, leafNode P e1, leafNode P e2],
      [combine P (leafNode P e0) (leafNode P e1), combine P (leafNode P e2) (leafNode P e2)],
      [combine P (combine P (leafNode P e0) (leafNode P e1))
                 (combine P (leafNode P e2) (leafNode P e2))] ]"
  by (simp add: layers_buildTree buildLayers_long buildLayers_short)

lemma ceil_half: "\<lceil>real n / 2\<rceil> = int ((n + 1) div 2)"
  by linarith

text \<open>
  C7: for a non-empty entry list, after \<open>buildTree\<close> every layer above the leaves has
  \<open>ceil(n / 2)\<close> nodes, \<open>n\<close> being the length of the layer below, and the last layer has
  exactly one node. Layer 0 has one node per entry.
\<close>

theorem layer_lengths_halve:
  "entries \<noteq> [] \<Longrightarrow>
     (let T = buildTree P (PoseidonMerkleTree entries)
      in layers T \<noteq> []
         \<and> length (layers T ! 0) = length entries
         \<and> (\<forall>i. 0 < i \<and> i < length (layers T) \<longrightarrow>
                int (length (layers T ! i)) = \<lceil>real (length (layers T ! (i - 1))) / 2\<rceil>)
         \<and> length (layers T ! (length (layers T) - 1)) = 1)"
proof -
  assume ne: "entries \<noteq> []"
  let ?cur = "map (leafNode P) entries"
  let ?ls = "?cur # buildLayers P ?cur"
  have step: "int (length (?ls ! i)) = \<lceil>real (length (?ls ! (i - 1))) / 2\<rceil>"
    if "0 < i" "i < length ?ls" for i
  proof -
    from that obtain k where k: "i = Suc k" by (cases i) simp_all
    with that have "?ls ! Suc k = pairLayer P (?ls ! k)" by (intro buildLayers_step) simp
    then have "length (?ls ! Suc k) = (length (?ls ! k) + 1) div 2"
      by (simp only: length_pairLayer)
    with k show ?thesis by (simp only: ceil_half diff_Suc_1)
  qed
  have "length (last ?ls) = 1" using ne by (intro buildLayers_last) simp
  then have lst: "length (?ls ! (length ?ls - 1)) = 1" by (simp only: last_conv_nth[of ?ls] list.distinct not_False_eq_True simp_thms if_False)
  show ?thesis
    unfolding Let_def layers_buildTree using step lst by simp
qed


theorem layer_lengths_halve_witness:
  "sampleEntries \<noteq> []
   \<and> map length (layers (buildTree sampleHash (PoseidonMerkleTree sampleEntries))) = [3, 2, 1]
   \<and> \<lceil>real 3 / 2\<rceil> = (2 :: int) \<and> \<lceil>real 2 / 2\<rceil> = (1 :: int)"
  using layer_lengths_halve [of sampleEntries sampleHash]
  by (simp add: sampleEntries_def sampleLayers)

text \<open>
  C3: every node \<open>j\<close> of a layer above the leaves combines the nodes \<open>2j\<close> and \<open>2j + 1\<close> of
  the layer below, in this order, and combines node \<open>2j\<close> with itself when \<open>2j + 1\<close> is out
  of range (the last node of a layer of odd length); no node of the lower layer is
  dropped, node \<open>k\<close> being a child of node \<open>k div 2\<close>. With exactly three entries the root
  is \<open>Hash([Hash([leaf0, leaf1]), Hash([leaf2, leaf2])])\<close>.
\<close>

theorem layers_pair_adjacent_nodes:
  "(let T = buildTree P (PoseidonMerkleTree entries)
    in (\<forall>i j. Suc i < length (layers T) \<and> j < length (layers T ! Suc i) \<longrightarrow>
          (let prev = layers T ! i;
               left = prev ! (2 * j);
               right = (if 2 * j + 1 < length prev then prev ! (2 * j + 1) else left);
               parent = layers T ! Suc i ! j
           in 2 * j < length prev
              \<and> node_hash parent = hash P [Big (node_hash left), Big (node_hash right)]
              \<and> node_left parent = Some left \<and> node_right parent = Some right))
       \<and> (\<forall>i k. Suc i < length (layers T) \<and> k < length (layers T ! i) \<longrightarrow>
             k div 2 < length (layers T ! Suc i))
       \<and> (\<forall>e0 e1 e2. entries = [e0, e1, e2] \<longrightarrow>
             getRoot T =
               Inr (Some (hash P
                 [Big (hash P [Big (hashLeaf P (fst e0) (snd e0)), Big (hashLeaf P (fst e1) (snd e1))]),
                  Big (hash P [Big (hashLeaf P (fst e2) (snd e2)), Big (hashLeaf P (fst e2) (snd e2))])]))))"
proof -
  let ?cur = "map (leafNode P) entries"
  let ?ls = "?cur # buildLayers P ?cur"
  have nodes: "2 * j < length (?ls ! i)
      \<and> ?ls ! Suc i ! j = combine P (?ls ! i ! (2 * j))
           (if 2 * j + 1 < length (?ls ! i) then ?ls ! i ! (2 * j + 1) else ?ls ! i ! (2 * j))"
    if "Suc i < length ?ls" "j < length (?ls ! Suc i)" for i j
  proof -
    from that(1) have st: "?ls ! Suc i = pairLayer P (?ls ! i)" by (rule buildLayers_step)
    with that(2) have "j < length (pairLayer P (?ls ! i))" by simp
    from pairLayer_nth[OF this] st show ?thesis by simp
  qed
  have kept: "k div 2 < length (?ls ! Suc i)"
    if "Suc i < length ?ls" "k < length (?ls ! i)" for i k
  proof -
    from that(1) have "?ls ! Suc i = pairLayer P (?ls ! i)" by (rule buildLayers_step)
    then have "length (?ls ! Suc i) = (length (?ls ! i) + 1) div 2"
      by (simp only: length_pairLayer)
    with that(2) show ?thesis by linarith
  qed
  have three: "getRoot (buildTree P (PoseidonMerkleTree [e0, e1, e2])) =
      Inr (Some (hash P
        [Big (hash P [Big (hashLeaf P (fst e0) (snd e0)), Big (hashLeaf P (fst e1) (snd e1))]),
         Big (hash P [Big (hashLeaf P (fst e2) (snd e2)), Big (hashLeaf P (fst e2) (snd e2))])]))"
    for e0 e1 e2
    by (simp add: getRoot_def layers_buildTree buildLayers_long buildLayers_short
        combine_def leafNode_def)
  show ?thesis
    unfolding Let_def layers_buildTree
    using nodes kept three[unfolded layers_buildTree]
    by (simp add: combine_def del: nth_Cons_Suc)
qed

theorem layers_pair_adjacent_nodes_witness:
  "(let T = buildTree sampleHash (PoseidonMerkleTree sampleEntries)
    in Suc 0 < length (layers T) \<and> 1 < length (layers T ! Suc 0)
       \<and> \<not> 2 * 1 + 1 < length (layers T ! 0)
       \<and> node_hash (layers T ! Suc 0 ! 1)
           = hash sampleHash [Big (node_hash (layers T ! 0 ! 2)), Big (node_hash (layers T ! 0 ! 2))]
       \<and> node_left (layers T ! Suc 0 ! 1) = Some (layers T ! 0 ! 2)
       \<and> node_right (layers T ! Suc 0 ! 1) = Some (layers T ! 0 ! 2)
       \<and> getRoot T = Inr (Some 439272))"
proof -
  let ?T = "buildTree sampleHash (PoseidonMerkleTree sampleEntries)"
  note inst = layers_pair_adjacent_nodes [of sampleHash sampleEntries, unfolded Let_def]
  have L: "map length (layers ?T) = [3, 2, 1]"
    by (simp add: sampleEntries_def sampleLayers)
  then have len: "length (layers ?T) = 3" "length (layers ?T ! 0) = 3"
    "length (layers ?T ! Suc 0) = 2"
    by (auto simp: map_eq_Cons_conv)
  then have pre: "Suc 0 < length (layers ?T) \<and> 1 < length (layers ?T ! Suc 0)" by simp
  have odd: "\<not> 2 * 1 + 1 < length (layers ?T ! 0)" using len by simp
  note nd = inst [THEN conjunct1, rule_format, OF pre]
  have se: "sampleEntries = [(''UID_1'', 1000), (''UID_2'', 2500), (''UID_3'', 750)]"
    by (simp add: sampleEntries_def)
  note rt = inst [THEN conjunct2, THEN conjunct2, rule_format, OF se]
  have "getRoot ?T = Inr (Some 439272)"
    unfolding rt by (simp add: hashLeaf_def hash_def sampleHash_def packBytes_def)
  with pre odd nd show ?thesis
    unfolding Let_def by simp
qed

text \<open>
  C4, amended: \<open>buildTree\<close> on an empty entry list completes and pushes one empty layer;
  no root is produced, since \<open>getRoot\<close> then throws a TypeError, and so does \<open>init\<close> when it
  goes on to compute the final root.
\<close>

theorem empty_build_completes_without_root:
  "buildTree P (PoseidonMerkleTree []) =
     \<lparr>leaves = [], layers = [ [] ], timestamp = None, finalRoot = None\<rparr>
   \<and> getRoot (buildTree P (PoseidonMerkleTree [])) = Inl TypeError
   \<and> init P now (PoseidonMerkleTree []) = Inl TypeError"
  by (simp add: buildTree_def PoseidonMerkleTree_def buildLayers_short getRoot_def init_def
      computeFinalRoot_def Let_def)

text \<open>
  C4, as stated: \<open>buildTree\<close> on an empty entry list fails. It does not: it returns the
  object with the single empty layer.
\<close>

theorem empty_build_counterexample:
  "buildTree sampleHash (PoseidonMerkleTree []) =
     \<lparr>leaves = [], layers = [ [] ], timestamp = None, finalRoot = None\<rparr>"
  by (simp add: buildTree_def PoseidonMerkleTree_def buildLayers_short Let_def)

section \<open>Proof extraction and snapshots\<close>

lemma proofLoop_done: "\<not> li < length lys - 1 \<Longrightarrow> proofLoop lys li ni acc = acc"
  by (subst proofLoop.simps) simp

lemma proofLoop_more:
  "li < length lys - 1 \<Longrightarrow>
     proofLoop lys li ni acc = proofLoop lys (Suc li) (ni div 2) (acc @ spec_pathElement (lys ! li) ni)"
  by (subst proofLoop.simps) (simp add: spec_pathElement_def Let_def even_iff_mod_2_eq_zero)

lemma proofLoop_closed:
  "proofLoop lys li ni acc =
     acc @ concat (map (\<lambda>i. spec_pathElement (lys ! i) (ni div 2 ^ (i - li))) [li..<length lys - 1])"
proof (induction "length lys - 1 - li" arbitrary: li ni acc)
  case 0
  then have "\<not> li < length lys - 1" by simp
  then show ?case by (simp add: proofLoop_done)
next
  case (Suc n)
  then have more: "li < length lys - 1" and n: "n = length lys - 1 - Suc li" by simp_all
  have shift: "(ni div 2) div 2 ^ (i - Suc li) = ni div 2 ^ (i - li)" if "Suc li \<le> i" for i
  proof -
    from that have "i - li = Suc (i - Suc li)" by simp
    then show ?thesis by (simp add: div_mult2_eq)
  qed
  have "proofLoop lys li ni acc
      = proofLoop lys (Suc li) (ni div 2) (acc @ spec_pathElement (lys ! li) ni)"
    using more by (rule proofLoop_more)
  also have "\<dots> = (acc @ spec_pathElement (lys ! li) ni)
      @ concat (map (\<lambda>i. spec_pathElement (lys ! i) ((ni div 2) div 2 ^ (i - Suc li)))
                  [Suc li..<length lys - 1])"
    using n by (rule Suc.hyps(1))
  also have "map (\<lambda>i. spec_pathElement (lys ! i) ((ni div 2) div 2 ^ (i - Suc li)))
                  [Suc li..<length lys - 1]
      = map (\<lambda>i. spec_pathElement (lys ! i) (ni div 2 ^ (i - li))) [Suc li..<length lys - 1]"
    by (rule map_cong) (simp_all add: shift)
  finally show ?case using more by (simp add: upt_conv_Cons)
qed

lemma findIndex_Some_iff:
  "findIndex p xs = Some k \<longleftrightarrow> k < length xs \<and> p (xs ! k) \<and> (\<forall>j<k. \<not> p (xs ! j))"
proof (induction xs arbitrary: k)
  case Nil
  then show ?case by simp
next
  case (Cons x xs)
  show ?case
  proof (cases "p x")
    case True
    then show ?thesis by (cases k) auto
  next
    case False
    show ?thesis
    proof (cases k)
      case 0
      with False show ?thesis by auto
    next
      case (Suc m)
      have "(\<forall>j<Suc m. \<not> p ((x # xs) ! j)) \<longleftrightarrow> (\<forall>j<m. \<not> p (xs ! j))"
        using False by (auto simp: less_Suc_eq_0_disj)
      with False Suc Cons.IH[of m] show ?thesis by auto
    qed
  qed
qed

lemma findIndex_None_iff: "findIndex p xs = None \<longleftrightarrow> (\<forall>x\<in>set xs. \<not> p x)"
  by (induction xs) auto


lemma init_layers:
  "init P now (PoseidonMerkleTree entries) = Inr T \<Longrightarrow>
     layers T = map (leafNode P) entries # buildLayers P (map (leafNode P) entries)
     \<and> leaves T = entries \<and> timestamp T = Some now"
  by (auto simp: init_def computeFinalRoot_def buildTree_def PoseidonMerkleTree_def Let_def
      split: sum.splits option.splits if_splits prod.splits)

lemma getRoot_Inr:
  "layers t \<noteq> [] \<Longrightarrow> last (layers t) \<noteq> [] \<Longrightarrow>
     getRoot t = Inr (Some (node_hash (hd (last (layers t)))))"
  by (cases "last (layers t)") (simp_all add: getRoot_def)

lemma init_succeeds:
  "entries \<noteq> [] \<Longrightarrow> \<exists>T. init P now (PoseidonMerkleTree entries) = Inr T"
proof -
  assume ne: "entries \<noteq> []"
  let ?t = "buildTree P ((PoseidonMerkleTree entries)\<lparr>timestamp := Some now\<rparr>)"
  have ls: "layers ?t = map (leafNode P) entries # buildLayers P (map (leafNode P) entries)"
    by (simp add: buildTree_def PoseidonMerkleTree_def Let_def)
  have "length (last (layers ?t)) = 1" unfolding ls using ne by (intro buildLayers_last) simp
  then have "last (layers ?t) \<noteq> []" by auto
  moreover have "layers ?t \<noteq> []" by (simp add: ls)
  ultimately have "getRoot ?t = Inr (Some (node_hash (hd (last (layers ?t)))))"
    by (rule getRoot_Inr[rotated])
  then show ?thesis
    by (simp add: init_def computeFinalRoot_def Let_def split: option.splits)
qed

lemma init_getRoot:
  "entries \<noteq> [] \<Longrightarrow> init P now (PoseidonMerkleTree entries) = Inr T \<Longrightarrow>
     getRoot T = Inr (Some (node_hash (hd (last (layers T)))))"
proof -
  assume ne: "entries \<noteq> []" and T: "init P now (PoseidonMerkleTree entries) = Inr T"
  from init_layers[OF T]
  have ls: "layers T = map (leafNode P) entries # buildLayers P (map (leafNode P) entries)"
    by simp
  have "length (last (layers T)) = 1" unfolding ls using ne by (intro buildLayers_last) simp
  then have "last (layers T) \<noteq> []" by auto
  moreover have "layers T \<noteq> []" by (simp add: ls)
  ultimately show ?thesis by (rule getRoot_Inr[rotated])
qed

lemma getProof_found:
  "layers t = leafLayer # upper \<Longrightarrow>
   findIndex (\<lambda>node. node_uid node = Some uid) leafLayer = Some k \<Longrightarrow>
   getRoot t = Inr r \<Longrightarrow>
     getProofFromStoredData t uid =
       Inr (Some \<lparr>p_uid = uid, p_balance = node_balance (leafLayer ! k),
                  p_leafHash = node_hash (leafLayer ! k),
                  p_proof = proofLoop (layers t) 0 k [],
                  p_merkleRoot = r, p_timestamp = timestamp t, p_finalRoot = finalRoot t\<rparr>)"
  by (simp add: getProofFromStoredData_def Let_def)

text \<open>
  C6: when extraction finds the identifier at index \<open>k\<close> of layer 0, the path is the
  concatenation, over the layers \<open>i\<close> below the last one in ascending order, of the path
  element of layer \<open>i\<close> at index \<open>k div 2 ^ i\<close>: the index is halved (rounded down) at every
  layer, whether or not that layer emitted an element; the element is the neighbour at
  \<open>index + 1\<close> tagged "right" for an even index, at \<open>index - 1\<close> tagged "left" for an odd
  one, and is missing when that neighbour is out of range.
\<close>

theorem extraction_records_adjacent_siblings:
  "getProofFromStoredData t uid = Inr (Some prf) \<Longrightarrow>
   findIndex (\<lambda>node. node_uid node = Some uid) (layers t ! 0) = Some k \<Longrightarrow>
     p_proof prf =
       concat (map (\<lambda>i. spec_pathElement (layers t ! i) (k div 2 ^ i))
                   [0..<length (layers t) - 1])"
proof -
  assume g: "getProofFromStoredData t uid = Inr (Some prf)"
    and k: "findIndex (\<lambda>node. node_uid node = Some uid) (layers t ! 0) = Some k"
  from g obtain leafLayer upper where ls: "layers t = leafLayer # upper"
    by (cases "layers t") (simp_all add: getProofFromStoredData_def)
  with k have k': "findIndex (\<lambda>node. node_uid node = Some uid) leafLayer = Some k" by simp
  from g ls k' obtain r where "getRoot t = Inr r"
    by (cases "getRoot t") (simp_all add: getProofFromStoredData_def Let_def)
  from getProof_found[OF ls k' this] g have "p_proof prf = proofLoop (layers t) 0 k []"
    by auto
  then show ?thesis by (simp add: proofLoop_closed)
qed

text \<open>
  C10: if \<open>k\<close> is the smallest index at which the identifier occurs in the entry list,
  extraction from the built tree returns the proof of leaf \<open>k\<close>: its balance, its hash and
  the path walked from index \<open>k\<close>, whatever occurrences follow.
\<close>

theorem first_match_wins:
  "k < length entries \<Longrightarrow> fst (entries ! k) = uid \<Longrightarrow> (\<forall>j<k. fst (entries ! j) \<noteq> uid) \<Longrightarrow>
     (\<exists>T prf. init P now (PoseidonMerkleTree entries) = Inr T
        \<and> getProofFromStoredData T uid = Inr (Some prf)
        \<and> p_uid prf = uid
        \<and> p_balance prf = Some (snd (entries ! k))
        \<and> p_leafHash prf = hashLeaf P uid (snd (entries ! k))
        \<and> p_leafHash prf = node_hash (layers T ! 0 ! k)
        \<and> p_proof prf = proofLoop (layers T) 0 k [])"
proof -
  assume k: "k < length entries" and uid: "fst (entries ! k) = uid"
    and first: "\<forall>j<k. fst (entries ! j) \<noteq> uid"
  from k have ne: "entries \<noteq> []" by auto
  from init_succeeds[OF ne] obtain T where T: "init P now (PoseidonMerkleTree entries) = Inr T"
    by blast
  let ?leafLayer = "map (leafNode P) entries"
  from init_layers[OF T] have ls: "layers T = ?leafLayer # buildLayers P ?leafLayer" by simp
  have fi: "findIndex (\<lambda>node. node_uid node = Some uid) ?leafLayer = Some k"
    unfolding findIndex_Some_iff using k uid first by (simp add: leafNode_def)
  define pr where "pr = \<lparr>p_uid = uid, p_balance = node_balance (?leafLayer ! k),
      p_leafHash = node_hash (?leafLayer ! k), p_proof = proofLoop (layers T) 0 k [],
      p_merkleRoot = Some (node_hash (hd (last (layers T)))),
      p_timestamp = timestamp T, p_finalRoot = finalRoot T\<rparr>"
  have g: "getProofFromStoredData T uid = Inr (Some pr)"
    unfolding pr_def by (rule getProof_found[OF ls fi init_getRoot[OF ne T] ])
  have "p_uid pr = uid" "p_proof pr = proofLoop (layers T) 0 k []"
    by (simp_all add: pr_def)
  moreover have "p_balance pr = Some (snd (entries ! k))"
    "p_leafHash pr = hashLeaf P uid (snd (entries ! k))"
    using k uid by (simp_all add: pr_def leafNode_def)
  moreover have "p_leafHash pr = node_hash (layers T ! 0 ! k)"
    by (simp add: pr_def ls)
  ultimately show ?thesis using T g by blast
qed


lemma findIndex_map: "findIndex p (map f xs) = findIndex (\<lambda>x. p (f x)) xs"
  by (induction xs) simp_all

lemma spec_pathElement_export:
  "spec_pathElement (map exportNode layer) idx = spec_pathElement layer idx"
  by (simp add: spec_pathElement_def exportNode_def)

lemma proofLoop_export:
  "proofLoop (map (map exportNode) lys) 0 k [] = proofLoop lys 0 k []"
proof -
  have "map (\<lambda>i. spec_pathElement (map (map exportNode) lys ! i) (k div 2 ^ i)) [0..<length lys - 1]
      = map (\<lambda>i. spec_pathElement (lys ! i) (k div 2 ^ i)) [0..<length lys - 1]"
    by (rule map_cong) (simp_all add: spec_pathElement_export)
  then show ?thesis by (simp only: proofLoop_closed length_map diff_zero)
qed

lemma getRoot_export:
  "getRoot (t\<lparr>leaves := lv, layers := map (map exportNode) (layers t), timestamp := ts,
              finalRoot := fr\<rparr>) = getRoot t"
proof (cases "layers t = []")
  case True
  then show ?thesis by (simp add: getRoot_def)
next
  case False
  then show ?thesis
    by (cases "last (layers t)") (simp_all add: getRoot_def last_map exportNode_def)
qed

lemma snapshot_roundtrip:
  "exportToJSON t = Inr j \<Longrightarrow>
     getProofFromStoredData (initFromJSON t0 j) uid = getProofFromStoredData t uid"
proof -
  assume "exportToJSON t = Inr j"
  then obtain r where r: "getRoot t = Inr r"
    and j: "j = \<lparr>j_merkleRoot = r, j_timestamp = timestamp t, j_finalRoot = finalRoot t,
               j_leaves = leaves t, j_layers = map (map exportNode) (layers t),
               j_hashFunction = ''poseidon''\<rparr>"
    by (cases "getRoot t") (auto simp: exportToJSON_def)
  let ?t' = "initFromJSON t0 j"
  have ls: "layers ?t' = map (map exportNode) (layers t)"
    and ts: "timestamp ?t' = timestamp t" and fr: "finalRoot ?t' = finalRoot t"
    by (simp_all add: initFromJSON_def j)
  have "getRoot ?t' = getRoot (t\<lparr>leaves := leaves t, layers := map (map exportNode) (layers t),
      timestamp := timestamp t, finalRoot := finalRoot t\<rparr>)"
    by (simp add: getRoot_def ls)
  then have gr: "getRoot ?t' = Inr r" by (simp only: getRoot_export r)
  show ?thesis
  proof (cases "layers t")
    case Nil
    then show ?thesis by (simp add: getProofFromStoredData_def ls)
  next
    case (Cons leafLayer upper)
    let ?p = "\<lambda>node. node_uid node = Some uid"
    have fi: "findIndex ?p (map exportNode leafLayer) = findIndex ?p leafLayer"
      by (simp add: findIndex_map exportNode_def)
    show ?thesis
    proof (cases "findIndex ?p leafLayer")
      case None
      with Cons fi show ?thesis by (simp add: getProofFromStoredData_def ls)
    next
      case (Some k)
      then have k: "k < length leafLayer" by (simp add: findIndex_Some_iff)
      have ls': "layers ?t' = map exportNode leafLayer # map (map exportNode) upper"
        by (simp add: ls Cons)
      from fi Some have fi': "findIndex ?p (map exportNode leafLayer) = Some k" by simp
      have pl: "proofLoop (layers ?t') 0 k [] = proofLoop (layers t) 0 k []"
        by (simp only: ls proofLoop_export)
      show ?thesis
        unfolding getProof_found[OF ls' fi' gr] getProof_found[OF Cons Some r] pl ts fr
        using k by (simp add: exportNode_def)
    qed
  qed
qed

text \<open>
  C5: for a tree built by \<open>init\<close> and an identifier of its entry list, \<open>exportToJSON\<close>
  succeeds, and the tree restored from the snapshot by \<open>initFromJSON\<close> extracts the very
  same proof object as the original tree.
\<close>

theorem snapshot_roundtrip_same_proof:
  "uid \<in> fst ` set entries \<Longrightarrow>
     (\<exists>T j pr. init P now (PoseidonMerkleTree entries) = Inr T
        \<and> exportToJSON T = Inr j
        \<and> getProofFromStoredData T uid = Inr (Some pr)
        \<and> getProofFromStoredData (initFromJSON (PoseidonMerkleTree []) j) uid = Inr (Some pr))"
proof -
  assume mem: "uid \<in> fst ` set entries"
  then have ne: "entries \<noteq> []" by auto
  from init_succeeds[OF ne] obtain T where T: "init P now (PoseidonMerkleTree entries) = Inr T"
    by blast
  from init_getRoot[OF ne T] obtain j where j: "exportToJSON T = Inr j"
    by (simp add: exportToJSON_def)
  let ?leafLayer = "map (leafNode P) entries"
  from init_layers[OF T] have ls: "layers T = ?leafLayer # buildLayers P ?leafLayer" by simp
  have "findIndex (\<lambda>node. node_uid node = Some uid) ?leafLayer \<noteq> None"
    using mem by (auto simp: findIndex_None_iff leafNode_def)
  then obtain k where "findIndex (\<lambda>node. node_uid node = Some uid) ?leafLayer = Some k"
    by auto
  from getProof_found[OF ls this init_getRoot[OF ne T] ]
  obtain pr where g: "getProofFromStoredData T uid = Inr (Some pr)" by blast
  with snapshot_roundtrip[OF j, of "PoseidonMerkleTree []" uid] T j show ?thesis by auto
qed


lemma buildLayers_three:
  "buildLayers P [a, b, c] = [ [combine P a b, combine P c c],
     [combine P (combine P a b) (combine P c c)] ]"
  by (simp add: buildLayers_long buildLayers_short)

theorem extraction_records_adjacent_siblings_witness:
  "\<exists>T pr. init sampleHash 1700000000000 (PoseidonMerkleTree sampleEntries) = Inr T
     \<and> getProofFromStoredData T ''UID_3'' = Inr (Some pr)
     \<and> findIndex (\<lambda>node. node_uid node = Some ''UID_3'') (layers T ! 0) = Some 2
     \<and> length (layers T) = 3 \<and> length (layers T ! 0) = 3
     \<and> p_proof pr = [\<lparr>pe_hash = node_hash (layers T ! 1 ! 0), position = ''left''\<rparr>]"
proof -
  have ne: "sampleEntries \<noteq> []" by (simp add: sampleEntries_def)
  from init_succeeds[OF ne] obtain T
    where T: "init sampleHash 1700000000000 (PoseidonMerkleTree sampleEntries) = Inr T"
    by blast
  let ?leafLayer = "map (leafNode sampleHash) sampleEntries"
  from init_layers[OF T] have ls: "layers T = ?leafLayer # buildLayers sampleHash ?leafLayer"
    by simp
  have fi: "findIndex (\<lambda>node. node_uid node = Some ''UID_3'') ?leafLayer = Some 2"
    by (simp add: sampleEntries_def leafNode_def)
  from getProof_found[OF ls fi init_getRoot[OF ne T] ]
  obtain pr where g: "getProofFromStoredData T ''UID_3'' = Inr (Some pr)" by blast
  from fi have fi0: "findIndex (\<lambda>node. node_uid node = Some ''UID_3'') (layers T ! 0) = Some 2"
    by (simp add: ls)
  have shape: "length (layers T) = 3" "length (layers T ! 0) = 3"
    by (simp_all add: ls sampleEntries_def buildLayers_three)
  have two: "[0..<2] = [0, Suc 0]" by (simp add: numeral_2_eq_2)
  from extraction_records_adjacent_siblings[OF g fi0]
  have "p_proof pr = [\<lparr>pe_hash = node_hash (layers T ! 1 ! 0), position = ''left''\<rparr>]"
    by (simp add: ls sampleEntries_def buildLayers_three spec_pathElement_def two)
  with T g fi0 shape show ?thesis by blast
qed

theorem first_match_wins_witness:
  "1 < length dupEntries \<and> fst (dupEntries ! 1) = ''A'' \<and> fst (dupEntries ! 0) \<noteq> ''A''
   \<and> fst (dupEntries ! 2) = ''A''
   \<and> (\<exists>T pr. init sampleHash 1700000000000 (PoseidonMerkleTree dupEntries) = Inr T
         \<and> getProofFromStoredData T ''A'' = Inr (Some pr)
         \<and> p_balance pr = Some 10
         \<and> p_leafHash pr = hashLeaf sampleHash ''A'' 10)"
proof -
  have h1: "1 < length dupEntries" and h2: "fst (dupEntries ! 1) = ''A''"
    and h3: "\<forall>j<1. fst (dupEntries ! j) \<noteq> ''A''" and h4: "fst (dupEntries ! 2) = ''A''"
    by (simp_all add: dupEntries_def)
  have b: "snd (dupEntries ! 1) = 10" by (simp add: dupEntries_def)
  from first_match_wins[OF h1 h2 h3, of sampleHash 1700000000000] h1 h2 h3 h4
  show ?thesis unfolding b by auto
qed

theorem snapshot_roundtrip_same_proof_witness:
  "''UID_3'' \<in> fst ` set sampleEntries
   \<and> (\<exists>T j pr. init sampleHash 1700000000000 (PoseidonMerkleTree sampleEntries) = Inr T
         \<and> exportToJSON T = Inr j
         \<and> getProofFromStoredData T ''UID_3'' = Inr (Some pr)
         \<and> getProofFromStoredData (initFromJSON (PoseidonMerkleTree []) j) ''UID_3''
             = Inr (Some pr))"
proof -
  have mem: "''UID_3'' \<in> fst ` set sampleEntries" by (simp add: sampleEntries_def)
  from snapshot_roundtrip_same_proof[OF mem, of sampleHash 1700000000000] mem
  show ?thesis by blast
qed

section \<open>Verification of extracted proofs\<close>

text \<open>
  \<open>verifyProof\<close> uses its parameter \<open>proof\<close> both as the array of path elements and as
  the proof object. Neither value serves both uses: the object is not iterable, and the
  array has no \<open>merkleRoot\<close>, so \<open>BigInt(proof.merkleRoot)\<close> throws.
\<close>

lemma verifyProof_ofObject: "verifyProof P uid balance (ofObject pr) r = Inl TypeError"
  by (simp add: verifyProof_def ofObject_def)

lemma verifyProof_ofArray: "verifyProof P uid balance (ofArray path) r = Inl TypeError"
  by (simp add: verifyProof_def ofArray_def Let_def)

text \<open>
  Only on a value that is iterable and also carries \<open>merkleRoot\<close> and \<open>timestamp\<close> does the
  function reach its \<open>return\<close>; the verdict is then the one of the two checks.
\<close>

lemma verifyProof_on_iterable_with_properties:
  "verifyProof P uid balance
     \<lparr>a_elements = Some path, a_merkleRoot = Some mr, a_timestamp = Some ts, a_finalRoot = fr\<rparr> r
   = Inr \<lparr>merklePathValid = (foldl (verifyStep P) (hashLeaf P uid balance) path = mr),
          finalRootValid = (Some (hash P [Big mr, Big ts]) = fr),
          overallValid = (foldl (verifyStep P) (hashLeaf P uid balance) path = mr
                          \<and> Some (hash P [Big mr, Big ts]) = fr)\<rparr>"
  by (simp add: verifyProof_def Let_def)

lemma init_three:
  "init P now (PoseidonMerkleTree [e0, e1, e2]) = Inr T \<Longrightarrow>
     layers T = [ [leafNode P e0, leafNode P e1, leafNode P e2],
       [combine P (leafNode P e0) (leafNode P e1), combine P (leafNode P e2) (leafNode P e2)],
       [combine P (combine P (leafNode P e0) (leafNode P e1))
                  (combine P (leafNode P e2) (leafNode P e2))] ]"
  by (drule init_layers) (simp add: buildLayers_three)

text \<open>
  Three entries, proof of the third: layer 0 emits no element (the sibling index 3 is
  out of range), so folding the path combines the leaf hash with the left neighbour of
  its parent, while the root was built from the leaf hash combined with itself.
\<close>

lemma three_entries_last_leaf:
  "\<exists>T pr. init P now (PoseidonMerkleTree [(''1'', 5000), (''2'', 3000), (''3'', 4000)]) = Inr T
     \<and> getProofFromStoredData T ''3'' = Inr (Some pr)
     \<and> p_proof pr =
         [\<lparr>pe_hash = hash P [Big (hashLeaf P ''1'' 5000), Big (hashLeaf P ''2'' 3000)],
           position = ''left''\<rparr>]
     \<and> foldl (verifyStep P) (hashLeaf P ''3'' 4000) (p_proof pr) =
         hash P [Big (hash P [Big (hashLeaf P ''1'' 5000), Big (hashLeaf P ''2'' 3000)]),
                 Big (hashLeaf P ''3'' 4000)]
     \<and> p_merkleRoot pr =
         Some (hash P [Big (hash P [Big (hashLeaf P ''1'' 5000), Big (hashLeaf P ''2'' 3000)]),
                       Big (hash P [Big (hashLeaf P ''3'' 4000), Big (hashLeaf P ''3'' 4000)])])"
proof -
  let ?es = "[(''1'', 5000), (''2'', 3000), (''3'', 4000)] :: (string \<times> int) list"
  have ne: "?es \<noteq> []" by simp
  from init_succeeds[OF ne] obtain T where T: "init P now (PoseidonMerkleTree ?es) = Inr T"
    by blast
  note ls = init_three[OF T]
  have fi: "findIndex (\<lambda>node. node_uid node = Some ''3'')
      [leafNode P (''1'', 5000), leafNode P (''2'', 3000), leafNode P (''3'', 4000)] = Some 2"
    by (simp add: leafNode_def)
  note g = getProof_found[OF ls fi init_getRoot[OF ne T] ]
  have two: "[0..<2] = [0, Suc 0]" by (simp add: numeral_2_eq_2)
  have path: "proofLoop (layers T) 0 2 [] =
      [\<lparr>pe_hash = hash P [Big (hashLeaf P ''1'' 5000), Big (hashLeaf P ''2'' 3000)],
        position = ''left''\<rparr>]"
    by (simp add: proofLoop_closed ls spec_pathElement_def two combine_def leafNode_def)
  have root: "node_hash (hd (last (layers T))) =
      hash P [Big (hash P [Big (hashLeaf P ''1'' 5000), Big (hashLeaf P ''2'' 3000)]),
              Big (hash P [Big (hashLeaf P ''3'' 4000), Big (hashLeaf P ''3'' 4000)])]"
    by (simp add: ls combine_def leafNode_def)
  define pr where "pr = \<lparr>p_uid = ''3'', p_balance = node_balance (leafNode P (''3'', 4000)),
      p_leafHash = node_hash (leafNode P (''3'', 4000)),
      p_proof = proofLoop (layers T) 0 2 [],
      p_merkleRoot = Some (node_hash (hd (last (layers T)))),
      p_timestamp = timestamp T, p_finalRoot = finalRoot T\<rparr>"
  from g have g': "getProofFromStoredData T ''3'' = Inr (Some pr)" by (simp add: pr_def)
  have pp: "p_proof pr =
      [\<lparr>pe_hash = hash P [Big (hashLeaf P ''1'' 5000), Big (hashLeaf P ''2'' 3000)],
        position = ''left''\<rparr>]"
    by (simp add: pr_def path)
  have fold: "foldl (verifyStep P) (hashLeaf P ''3'' 4000) (p_proof pr) =
      hash P [Big (hash P [Big (hashLeaf P ''1'' 5000), Big (hashLeaf P ''2'' 3000)]),
              Big (hashLeaf P ''3'' 4000)]"
    by (simp add: pp verifyStep_def)
  have mr: "p_merkleRoot pr =
      Some (hash P [Big (hash P [Big (hashLeaf P ''1'' 5000), Big (hashLeaf P ''2'' 3000)]),
                    Big (hash P [Big (hashLeaf P ''3'' 4000), Big (hashLeaf P ''3'' 4000)])])"
    by (simp add: pr_def root)
  from T g' pp fold mr show ?thesis by blast
qed

text \<open>
  C1 at the entries \<open>[("1", 5000), ("2", 3000), ("3", 4000)]\<close> and the identifier "3" with
  its true balance 4000: \<open>verifyProof\<close> throws a TypeError on the extracted proof object and
  on its path array, so no verdict is produced; and the hash recomputed along the
  extracted path is \<open>Hash([Hash([l1, l2]), l3])\<close>, not the root
  \<open>Hash([Hash([l1, l2]), Hash([l3, l3])])\<close>.
\<close>

theorem true_entry_fails_verification:
  "\<exists>T pr. init P now (PoseidonMerkleTree [(''1'', 5000), (''2'', 3000), (''3'', 4000)]) = Inr T
     \<and> getProofFromStoredData T ''3'' = Inr (Some pr)
     \<and> verifyProof P ''3'' 4000 (ofObject pr) r = Inl TypeError
     \<and> verifyProof P ''3'' 4000 (ofArray (p_proof pr)) r = Inl TypeError
     \<and> p_proof pr =
         [\<lparr>pe_hash = hash P [Big (hashLeaf P ''1'' 5000), Big (hashLeaf P ''2'' 3000)],
           position = ''left''\<rparr>]
     \<and> foldl (verifyStep P) (hashLeaf P ''3'' 4000) (p_proof pr) =
         hash P [Big (hash P [Big (hashLeaf P ''1'' 5000), Big (hashLeaf P ''2'' 3000)]),
                 Big (hashLeaf P ''3'' 4000)]
     \<and> p_merkleRoot pr =
         Some (hash P [Big (hash P [Big (hashLeaf P ''1'' 5000), Big (hashLeaf P ''2'' 3000)]),
                       Big (hash P [Big (hashLeaf P ''3'' 4000), Big (hashLeaf P ''3'' 4000)])])"
proof -
  from three_entries_last_leaf [of P now] obtain T pr
    where "init P now (PoseidonMerkleTree [(''1'', 5000), (''2'', 3000), (''3'', 4000)]) = Inr T"
      and "getProofFromStoredData T ''3'' = Inr (Some pr)"
      and "p_proof pr =
         [\<lparr>pe_hash = hash P [Big (hashLeaf P ''1'' 5000), Big (hashLeaf P ''2'' 3000)],
           position = ''left''\<rparr>]"
      and "foldl (verifyStep P) (hashLeaf P ''3'' 4000) (p_proof pr) =
         hash P [Big (hash P [Big (hashLeaf P ''1'' 5000), Big (hashLeaf P ''2'' 3000)]),
                 Big (hashLeaf P ''3'' 4000)]"
      and "p_merkleRoot pr =
         Some (hash P [Big (hash P [Big (hashLeaf P ''1'' 5000), Big (hashLeaf P ''2'' 3000)]),
                       Big (hash P [Big (hashLeaf P ''3'' 4000), Big (hashLeaf P ''3'' 4000)])])"
    by blast
  with verifyProof_ofObject[of P "''3''" 4000 pr r]
    verifyProof_ofArray[of P "''3''" 4000 "p_proof pr" r]
  show ?thesis by blast
qed

text \<open>
  With the sample hash, the \<open>verifyProof\<close> of the older module, which takes the path array
  and the root, rejects this true entry.
\<close>

lemma older_verifier_rejects_true_entry:
  "\<exists>T pr. init sampleHash 1700000000000
             (PoseidonMerkleTree [(''1'', 5000), (''2'', 3000), (''3'', 4000)]) = Inr T
     \<and> getProofFromStoredData T ''3'' = Inr (Some pr)
     \<and> verifyProof_v1 sampleHash ''3'' 4000 (p_proof pr) (p_merkleRoot pr) = False"
proof -
  from three_entries_last_leaf [of sampleHash 1700000000000]
  obtain T pr where "init sampleHash 1700000000000
             (PoseidonMerkleTree [(''1'', 5000), (''2'', 3000), (''3'', 4000)]) = Inr T"
     "getProofFromStoredData T ''3'' = Inr (Some pr)"
     "foldl (verifyStep sampleHash) (hashLeaf sampleHash ''3'' 4000) (p_proof pr) =
         hash sampleHash [Big (hash sampleHash [Big (hashLeaf sampleHash ''1'' 5000), Big (hashLeaf sampleHash ''2'' 3000)]),
                 Big (hashLeaf sampleHash ''3'' 4000)]"
     "p_merkleRoot pr =
         Some (hash sampleHash [Big (hash sampleHash [Big (hashLeaf sampleHash ''1'' 5000), Big (hashLeaf sampleHash ''2'' 3000)]),
                       Big (hash sampleHash [Big (hashLeaf sampleHash ''3'' 4000), Big (hashLeaf sampleHash ''3'' 4000)])])"
    by blast
  then show ?thesis
    by (intro exI[of _ T] exI[of _ pr]) (simp add: verifyProof_v1_def hash_def hashLeaf_def sampleHash_def packBytes_def)
qed


text \<open>
  C2 on the code: for a proof object as extraction returns it, for its path array, and
  through \<open>verifyMerkleProof\<close>, \<open>verifyProof\<close> throws a TypeError instead of returning a
  verdict.
\<close>

theorem verifyProof_returns_no_verdict:
  "verifyProof P uid balance (ofObject pr) r = Inl TypeError
   \<and> verifyProof P uid balance (ofArray path) r = Inl TypeError
   \<and> verifyMerkleProof P uid balance pr = Inl TypeError"
  by (simp add: verifyProof_ofObject verifyProof_ofArray verifyMerkleProof_def)

text \<open>
  C8 on the code: a tree built from one entry has the leaf hash as its root and the
  extracted proof has an empty path, but \<open>verifyProof\<close> throws a TypeError on that proof
  (on the proof object and on its path array alike).
\<close>

theorem single_entry_tree_verification_throws:
  "\<exists>T pr. init P now (PoseidonMerkleTree [(uid, balance)]) = Inr T
     \<and> getRoot T = Inr (Some (hashLeaf P uid balance))
     \<and> getProofFromStoredData T uid = Inr (Some pr)
     \<and> p_leafHash pr = hashLeaf P uid balance
     \<and> p_merkleRoot pr = Some (hashLeaf P uid balance)
     \<and> p_proof pr = []
     \<and> verifyProof P uid balance (ofObject pr) r = Inl TypeError
     \<and> verifyProof P uid balance (ofArray (p_proof pr)) r = Inl TypeError"
proof -
  have ne: "[(uid, balance)] \<noteq> []" by simp
  from init_succeeds[OF ne] obtain T
    where T: "init P now (PoseidonMerkleTree [(uid, balance)]) = Inr T" by blast
  from init_layers[OF T] have ls: "layers T = [leafNode P (uid, balance)] # []"
    by (simp add: buildLayers_short)
  have gr: "getRoot T = Inr (Some (hashLeaf P uid balance))"
    by (simp add: getRoot_def ls leafNode_def)
  have fi: "findIndex (\<lambda>node. node_uid node = Some uid) [leafNode P (uid, balance)] = Some 0"
    by (simp add: leafNode_def)
  define pr where "pr = \<lparr>p_uid = uid, p_balance = node_balance ([leafNode P (uid, balance)] ! 0),
      p_leafHash = node_hash ([leafNode P (uid, balance)] ! 0),
      p_proof = proofLoop (layers T) 0 0 [],
      p_merkleRoot = Some (hashLeaf P uid balance),
      p_timestamp = timestamp T, p_finalRoot = finalRoot T\<rparr>"
  have g: "getProofFromStoredData T uid = Inr (Some pr)"
    unfolding pr_def by (rule getProof_found[OF ls fi gr])
  have "p_proof pr = []" by (simp add: pr_def ls proofLoop_done)
  moreover have "p_leafHash pr = hashLeaf P uid balance"
    "p_merkleRoot pr = Some (hashLeaf P uid balance)"
    by (simp_all add: pr_def leafNode_def)
  ultimately show ?thesis
    using T gr g verifyProof_ofObject[of P uid balance pr r]
      verifyProof_ofArray[of P uid balance "p_proof pr" r]
    by blast
qed

section \<open>What the extracted path recomputes\<close>

text \<open>
  Ascending one layer with an emitted element reproduces the hash of the parent node;
  this is where the order of the two arguments matters.
\<close>

lemma proofLoop_Cons:
  "lys \<noteq> [] \<Longrightarrow>
     proofLoop (l # lys) 0 k [] = spec_pathElement l k @ proofLoop lys 0 (k div 2) []"
proof -
  assume ne: "lys \<noteq> []"
  then have up: "[0..<length lys] = 0 # map Suc [0..<length lys - 1]"
    by (cases lys) (simp_all add: upt_conv_Cons map_Suc_upt del: upt_Suc)
  show ?thesis
    by (simp add: proofLoop_closed up comp_def div_mult2_eq del: upt_Suc)
qed

lemma step_hash:
  assumes k: "k < length cur" and emit: "odd k \<or> k + 1 < length cur"
  shows "foldl (verifyStep P) (node_hash (cur ! k)) (spec_pathElement cur k)
           = node_hash (pairLayer P cur ! (k div 2))"
proof -
  from k have j: "k div 2 < length (pairLayer P cur)" by (simp add: length_pairLayer)
  show ?thesis
  proof (cases "even k")
    case True
    then obtain m where m: "k = 2 * m" by (auto elim: evenE)
    from True emit have "k + 1 < length cur" by simp
    with m j pairLayer_nth[of m P cur] show ?thesis
      by (simp add: spec_pathElement_def verifyStep_def combine_def)
  next
    case False
    then obtain m where m: "k = 2 * m + 1" by (auto elim: oddE)
    with k j pairLayer_nth[of m P cur] show ?thesis
      by (simp add: spec_pathElement_def verifyStep_def combine_def)
  qed
qed

text \<open>
  If every layer on the way up emits an element (the node is never the unpaired last
  node of a layer of odd length), folding the path from the leaf hash gives the root.
\<close>

lemma path_recomputes_root:
  "k < length cur \<Longrightarrow>
   (\<forall>i < length (buildLayers P cur).
       odd (k div 2 ^ i) \<or> k div 2 ^ i + 1 < length ((cur # buildLayers P cur) ! i)) \<Longrightarrow>
     foldl (verifyStep P) (node_hash (cur ! k)) (proofLoop (cur # buildLayers P cur) 0 k [])
       = node_hash (hd (last (cur # buildLayers P cur)))"
proof (induction P cur arbitrary: k rule: buildLayers.induct)
  case (1 P cur)
  show ?case
  proof (cases "1 < length cur")
    case False
    with "1.prems"(1) have "k = 0" "cur \<noteq> []" by auto
    with False show ?thesis
      by (simp add: buildLayers_short proofLoop_done hd_conv_nth)
  next
    case True
    let ?new = "pairLayer P cur"
    note long = buildLayers_long[OF True, of P]
    from "1.prems"(2)[rule_format, of 0] "1.prems"(1)
    have emit: "odd k \<or> k + 1 < length cur" by (simp add: long)
    from "1.prems"(1) have k2: "k div 2 < length ?new" by (simp add: length_pairLayer)
    have all: "\<forall>i < length (buildLayers P ?new).
        odd (k div 2 div 2 ^ i) \<or> k div 2 div 2 ^ i + 1 < length ((?new # buildLayers P ?new) ! i)"
    proof (intro allI impI)
      fix i assume "i < length (buildLayers P ?new)"
      then have "Suc i < length (buildLayers P cur)" by (simp add: long)
      from "1.prems"(2)[rule_format, OF this] show
        "odd (k div 2 div 2 ^ i) \<or> k div 2 div 2 ^ i + 1 < length ((?new # buildLayers P ?new) ! i)"
        by (simp add: long div_mult2_eq)
    qed
    note ih = "1.IH"[OF True refl k2 all]
    have "proofLoop (cur # buildLayers P cur) 0 k []
        = spec_pathElement cur k @ proofLoop (?new # buildLayers P ?new) 0 (k div 2) []"
      unfolding long by (rule proofLoop_Cons) simp
    then show ?thesis
      by (simp add: step_hash[OF "1.prems"(1) emit] ih long)
  qed
qed


lemma init_finalRoot:
  "init P now (PoseidonMerkleTree entries) = Inr T \<Longrightarrow> getRoot T = Inr (Some rt) \<Longrightarrow>
     now \<noteq> 0 \<Longrightarrow> finalRoot T = Some (hash P [Big rt, Big now])"
  by (auto simp: init_def computeFinalRoot_def getRoot_def buildTree_def PoseidonMerkleTree_def
      Let_def split: sum.splits option.splits if_splits list.splits)

text \<open>
  Under that condition the older module's \<open>verifyProof\<close> accepts the extracted path, and
  the timestamped \<open>verifyProof\<close> returns an all-true verdict once it is handed a value that
  offers both the path elements and the properties of the proof object.
\<close>

lemma path_verifies_without_duplication:
  assumes T: "init P now (PoseidonMerkleTree entries) = Inr T"
    and k: "k < length entries" and uid: "fst (entries ! k) = uid"
    and first: "\<forall>j<k. fst (entries ! j) \<noteq> uid"
    and emit: "\<forall>i < length (layers T) - 1.
                 odd (k div 2 ^ i) \<or> k div 2 ^ i + 1 < length (layers T ! i)"
    and now: "now \<noteq> 0"
  shows "\<exists>pr. getProofFromStoredData T uid = Inr (Some pr)
     \<and> verifyProof_v1 P uid (snd (entries ! k)) (p_proof pr) (p_merkleRoot pr)
     \<and> verifyProof P uid (snd (entries ! k))
          \<lparr>a_elements = Some (p_proof pr), a_merkleRoot = p_merkleRoot pr,
            a_timestamp = p_timestamp pr, a_finalRoot = p_finalRoot pr\<rparr> r
         = Inr \<lparr>merklePathValid = True, finalRootValid = True, overallValid = True\<rparr>"
proof -
  from k have ne: "entries \<noteq> []" by auto
  let ?cur = "map (leafNode P) entries"
  from init_layers[OF T] have ls: "layers T = ?cur # buildLayers P ?cur"
    and ts: "timestamp T = Some now" by simp_all
  have fi: "findIndex (\<lambda>node. node_uid node = Some uid) ?cur = Some k"
    unfolding findIndex_Some_iff using k uid first by (simp add: leafNode_def)
  note gr = init_getRoot[OF ne T]
  define pr where "pr = \<lparr>p_uid = uid, p_balance = node_balance (?cur ! k),
      p_leafHash = node_hash (?cur ! k), p_proof = proofLoop (layers T) 0 k [],
      p_merkleRoot = Some (node_hash (hd (last (layers T)))),
      p_timestamp = timestamp T, p_finalRoot = finalRoot T\<rparr>"
  have g: "getProofFromStoredData T uid = Inr (Some pr)"
    unfolding pr_def by (rule getProof_found[OF ls fi gr])
  have leaf: "node_hash (?cur ! k) = hashLeaf P uid (snd (entries ! k))"
    using k uid by (simp add: leafNode_def)
  from emit have emit': "\<forall>i < length (buildLayers P ?cur).
      odd (k div 2 ^ i) \<or> k div 2 ^ i + 1 < length ((?cur # buildLayers P ?cur) ! i)"
    by (simp add: ls)
  from k have "k < length ?cur" by simp
  from path_recomputes_root[OF this emit']
  have fold: "foldl (verifyStep P) (hashLeaf P uid (snd (entries ! k))) (p_proof pr)
      = node_hash (hd (last (layers T)))"
    by (simp add: leaf pr_def ls)
  have fr: "finalRoot T = Some (hash P [Big (node_hash (hd (last (layers T)))), Big now])"
    by (rule init_finalRoot[OF T gr now])
  have v1: "verifyProof_v1 P uid (snd (entries ! k)) (p_proof pr) (p_merkleRoot pr)"
    by (simp add: verifyProof_v1_def fold) (simp add: pr_def)
  have v2: "verifyProof P uid (snd (entries ! k))
          \<lparr>a_elements = Some (p_proof pr), a_merkleRoot = p_merkleRoot pr,
            a_timestamp = p_timestamp pr, a_finalRoot = p_finalRoot pr\<rparr> r
         = Inr \<lparr>merklePathValid = True, finalRootValid = True, overallValid = True\<rparr>"
    by (simp add: verifyProof_def fold Let_def) (simp add: pr_def ts fr)
  from g v1 v2 show ?thesis by blast
qed

end
